theory Spec2Isabelle
  imports Complex_Main "HOL-Library.Multiset"
begin

section \<open>The SNLI hard-slice builder (build\_snli\_hard\_challenge.py)\<close>

text \<open>
  The script filters the SNLI train split down to "hard" examples (hypothesis without
  negation word, more than ten hypothesis tokens, premise/hypothesis token overlap
  below 0.2), keeps up to \<open>max_per_label\<close> of them per gold label after a seeded
  shuffle, shuffles the result and writes it as JSON lines.

  A text is a \<open>string\<close>: a list of 8-bit characters, read as the code points
  U+0000 to U+00FF of a Python \<open>str\<close>. Code points above U+00FF are outside the model.
\<close>

subsection \<open>Characters\<close>

text \<open>The character class \<open>[a-z0-9]\<close> of the regular expression in \<open>simple_tokenize\<close>.\<close>

definition is_alnum :: "char \<Rightarrow> bool" where
  "is_alnum c =
     (let n = (of_char c :: nat) in (97 \<le> n \<and> n \<le> 122) \<or> (48 \<le> n \<and> n \<le> 57))"

text \<open>
  The characters \<open>str.split()\<close> treats as whitespace (those with \<open>str.isspace\<close>),
  below U+0100: tab to carriage return, the four separators U+001C to U+001F, the
  space, U+0085 and U+00A0.
\<close>

definition is_space :: "char \<Rightarrow> bool" where
  "is_space c =
     (let n = (of_char c :: nat) in
        (9 \<le> n \<and> n \<le> 13) \<or> (28 \<le> n \<and> n \<le> 32) \<or> n = 133 \<or> n = 160)"

text \<open>
  \<open>str.lower()\<close> on one code point below U+0100: the letters A to Z and the
  Latin-1 capitals U+00C0 to U+00DE (the multiplication sign U+00D7 apart) move up by 32,
  every other code point stays.
\<close>

definition lower_char :: "char \<Rightarrow> char" where
  "lower_char c =
     (let n = (of_char c :: nat) in
        if (65 \<le> n \<and> n \<le> 90) \<or> (192 \<le> n \<and> n \<le> 222 \<and> n \<noteq> 215)
        then char_of (n + 32) else c)"

definition str_lower :: "string \<Rightarrow> string" where
  "str_lower text = map lower_char text"

subsection \<open>The tokenizer\<close>

text \<open>
  \<open>re.sub(r"[^a-z0-9]+", " ", text)\<close>: every maximal run of characters outside
  \<open>[a-z0-9]\<close> becomes one space.
\<close>

function re_sub :: "string \<Rightarrow> string" where
  "re_sub [] = []"
| "re_sub (c # cs) =
     (if is_alnum c then c # re_sub cs
      else CHR '' '' # re_sub (dropWhile (\<lambda>d. \<not> is_alnum d) cs))"
  by pat_completeness auto
termination
  by (relation "measure length") (auto simp: length_dropWhile_le less_Suc_eq_le)

text \<open>
  \<open>text.split()\<close> with no separator: leading whitespace is skipped, a word runs to the
  next whitespace character, and no empty word is produced.
\<close>

function str_split :: "string \<Rightarrow> string list" where
  "str_split s =
     (case dropWhile is_space s of
        [] \<Rightarrow> []
      | c # cs \<Rightarrow> (c # takeWhile (\<lambda>d. \<not> is_space d) cs)
                 # str_split (dropWhile (\<lambda>d. \<not> is_space d) cs))"
  by pat_completeness auto
termination
proof (relation "measure length", goal_cases)
  case 1
  show ?case by simp
next
  case (2 s c cs)
  have "length (dropWhile (\<lambda>d. \<not> is_space d) cs) \<le> length cs"
    by (rule length_dropWhile_le)
  moreover have "length (c # cs) \<le> length s"
    using 2 length_dropWhile_le [of is_space s] by simp
  ultimately show ?case by simp
qed

declare str_split.simps [simp del]

text \<open>
  \<^verbatim>\<open>
  def simple_tokenize(text):
      text = text.lower()
      text = re.sub(r"[^a-z0-9]+", " ", text)
      tokens = [t for t in text.split() if t]
      return tokens
  \<close>
\<close>

definition simple_tokenize :: "string \<Rightarrow> string list" where
  "simple_tokenize text = filter (\<lambda>t. t \<noteq> []) (str_split (re_sub (str_lower text)))"

subsection \<open>Negation detector\<close>

definition NEGATION_WORDS :: "string set" where
  "NEGATION_WORDS =
     {''not'', ''no'', ''never'', ''none'', ''nobody'', ''nothing'', ''nowhere'',
      ''neither'', ''nor'', ''n't'', ''cant'', ''can't'', ''dont'', ''don't''}"

text \<open>
  \<^verbatim>\<open>
  def has_negation(text):
      toks = simple_tokenize(text)
      return any(t in NEGATION_WORDS for t in toks)
  \<close>
\<close>

definition has_negation :: "string \<Rightarrow> bool" where
  "has_negation text =
     (let toks = simple_tokenize text in list_ex (\<lambda>t. t \<in> NEGATION_WORDS) toks)"

text \<open>
  The vocabulary as the specification describes its reachable part: the entries that
  bear an apostrophe removed. The detector over it is compared with \<open>has_negation\<close>.
\<close>

definition NEGATION_WORDS_no_apostrophe :: "string set" where
  "NEGATION_WORDS_no_apostrophe = NEGATION_WORDS - {''n't'', ''can't'', ''don't''}"

definition has_negation_no_apostrophe :: "string \<Rightarrow> bool" where
  "has_negation_no_apostrophe text =
     list_ex (\<lambda>t. t \<in> NEGATION_WORDS_no_apostrophe) (simple_tokenize text)"

subsection \<open>Lexical overlap\<close>

text \<open>
  \<^verbatim>\<open>
  def lexical_overlap(prem, hyp):
      prem_tokens = set(simple_tokenize(prem))
      hyp_tokens = set(simple_tokenize(hyp))
      if not prem_tokens or not hyp_tokens:
          return 0.0
      inter = len(prem_tokens & hyp_tokens)
      union = len(prem_tokens | hyp_tokens)
      return inter / union
  \<close>
  The quotient of the two counts is a Python float; the model returns the exact
  quotient as a \<open>real\<close>. Python rounds the quotient of two integers correctly, and
  rounding is monotone, so the comparison with the float \<open>0.2\<close> in
  \<open>is_hard_example\<close> agrees with the exact comparison with \<open>1/5\<close> as long as a
  text has fewer than \<open>2^52\<close> distinct tokens.
\<close>

definition lexical_overlap :: "string \<Rightarrow> string \<Rightarrow> real" where
  "lexical_overlap prem hyp =
     (let prem_tokens = set (simple_tokenize prem);
          hyp_tokens = set (simple_tokenize hyp)
      in if prem_tokens = {} \<or> hyp_tokens = {} then 0
         else (let n_inter = card (prem_tokens \<inter> hyp_tokens);
                   n_union = card (prem_tokens \<union> hyp_tokens)
               in real n_inter / real n_union))"

subsection \<open>Heuristic evaluator\<close>

text \<open>An SNLI record, with the three fields the script reads.\<close>

record example =
  premise :: string
  hypothesis :: string
  label :: int

text \<open>
  \<^verbatim>\<open>
  def is_hard_example(ex):
      prem = ex["premise"]
      hyp = ex["hypothesis"]
      if has_negation(hyp):
          return False
      hyp_len = len(simple_tokenize(hyp))
      if hyp_len <= 10:
          return False
      overlap = lexical_overlap(prem, hyp)
      if overlap >= 0.2:
          return False
      return True
  \<close>
\<close>

definition is_hard_example :: "example \<Rightarrow> bool" where
  "is_hard_example ex =
     (let prem = premise ex; hyp = hypothesis ex
      in if has_negation hyp then False
         else (let hyp_len = length (simple_tokenize hyp)
               in if hyp_len \<le> 10 then False
                  else (let overlap = lexical_overlap prem hyp
                        in if overlap \<ge> 0.2 then False else True)))"

subsection \<open>Grouping by label\<close>

text \<open>
  \<open>by_label\<close> is a dict with the keys 0, 1, 2 in insertion order, which is the order
  \<open>by_label.items()\<close> later visits: an association list.
\<close>

type_synonym groups = "(int \<times> example list) list"

definition by_label_init :: groups where
  "by_label_init = [(0, []), (1, []), (2, [])]"

text \<open>\<open>by_label[lab].append(ex)\<close>\<close>

definition append_to :: "int \<Rightarrow> example \<Rightarrow> groups \<Rightarrow> groups" where
  "append_to lab ex by_label =
     map (\<lambda>(k, exs). if k = lab then (k, exs @ [ex]) else (k, exs)) by_label"

text \<open>
  \<^verbatim>\<open>
  for ex in train:
      if is_hard_example(ex):
          lab = ex["label"]
          if lab in by_label:
              by_label[lab].append(ex)
  \<close>
\<close>

fun collect_hard :: "example list \<Rightarrow> groups \<Rightarrow> groups" where
  "collect_hard [] by_label = by_label"
| "collect_hard (ex # train) by_label =
     (if is_hard_example ex then
        (let lab = label ex
         in if lab \<in> fst ` set by_label
            then collect_hard train (append_to lab ex by_label)
            else collect_hard train by_label)
      else collect_hard train by_label)"

text \<open>The invariant of the label groups: every example sits under its own label.\<close>

definition keyed :: "groups \<Rightarrow> bool" where
  "keyed G \<longleftrightarrow> (\<forall>(k, exs)\<in>set G. \<forall>ex\<in>set exs. label ex = k)"

subsection \<open>Stratified sampler\<close>

text \<open>
  \<open>random.shuffle\<close> belongs to Python's library: the model takes it as a parameter
  \<open>shuffle\<close> that maps the generator state and a list to the shuffled list and the next
  state, and \<open>random.seed\<close> as a parameter \<open>seed_rng\<close> from the seed to the first
  state. What the library promises of a shuffle is that it permutes its argument.
\<close>

type_synonym 'g shuffler = "'g \<Rightarrow> example list \<Rightarrow> example list \<times> 'g"

definition permuting :: "'g shuffler \<Rightarrow> bool" where
  "permuting shuffle \<longleftrightarrow> (\<forall>g xs. mset (fst (shuffle g xs)) = mset xs)"

text \<open>
  The slice \<open>exs[:m]\<close>: the first \<open>m\<close> elements for \<open>m \<ge> 0\<close>, all but the last
  \<open>-m\<close> elements for \<open>m < 0\<close>.
\<close>

definition slice_to :: "'a list \<Rightarrow> int \<Rightarrow> 'a list" where
  "slice_to xs m =
     (if 0 \<le> m then take (nat m) xs else take (length xs - nat (- m)) xs)"

text \<open>
  \<^verbatim>\<open>
  selected = []
  for lab, exs in by_label.items():
      random.shuffle(exs)
      keep = exs[: args.max_per_label]
      selected.extend(keep)
  \<close>
\<close>

fun sample_per_label ::
  "'g shuffler \<Rightarrow> int \<Rightarrow> groups \<Rightarrow> example list \<Rightarrow> 'g \<Rightarrow> example list \<times> 'g" where
  "sample_per_label shuffle max_per_label [] selected g = (selected, g)"
| "sample_per_label shuffle max_per_label ((lab, exs) # by_label) selected g =
     (let (exs', g') = shuffle g exs;
          keep = slice_to exs' max_per_label
      in sample_per_label shuffle max_per_label by_label (selected @ keep) g')"

text \<open>
  Lines 89 to 100 of \<open>main\<close>: drop the unlabeled records, then group the hard ones.
  \<^verbatim>\<open>
  train = dataset["train"].filter(lambda ex: ex["label"] != -1)
  by_label = {0: [], 1: [], 2: []}
  for ex in train: ...
  \<close>
\<close>

definition hard_by_label :: "example list \<Rightarrow> groups" where
  "hard_by_label dataset_train =
     (let train = filter (\<lambda>ex. label ex \<noteq> - 1) dataset_train
      in collect_hard train by_label_init)"

text \<open>
  Lines 83 to 113 of \<open>main\<close>: seed the generator, build the groups, sample each group
  and shuffle the selection. The train split that \<open>datasets.load_dataset\<close> returns is
  the argument \<open>dataset_train\<close>. Loading and filtering the dataset are taken not to
  draw from the generator, so the first shuffle starts in the state the seed gives. The
  prints have no part in the result and are left out.
\<close>

definition select_examples ::
  "(int \<Rightarrow> 'g) \<Rightarrow> 'g shuffler \<Rightarrow> example list \<Rightarrow> int \<Rightarrow> int \<Rightarrow> example list" where
  "select_examples seed_rng shuffle dataset_train max_per_label seed =
     (let g = seed_rng seed;
          by_label = hard_by_label dataset_train;
          (selected, g') = sample_per_label shuffle max_per_label by_label [] g
      in fst (shuffle g' selected))"

text \<open>How many examples of a list carry a given label.\<close>

definition count_label :: "int \<Rightarrow> example list \<Rightarrow> nat" where
  "count_label k exs = length (filter (\<lambda>ex. label ex = k) exs)"

subsection \<open>Writer\<close>

text \<open>
  The dict \<open>out\<close> handed to \<open>json.dumps\<close>: three keys in insertion order, two strings
  and an integer.
\<close>

datatype json = JString string | JInt int

type_synonym json_object = "(string \<times> json) list"

definition out_record :: "example \<Rightarrow> json_object" where
  "out_record ex =
     [(''premise'', JString (premise ex)),
      (''hypothesis'', JString (hypothesis ex)),
      (''label'', JInt (label ex))]"

definition newline :: char where
  "newline = CHR 0x0A"

text \<open>
  \<^verbatim>\<open>
  for ex in selected:
      out = {...}
      f.write(json.dumps(out))
      f.write("\n")
  \<close>
  \<open>json.dumps\<close> is the library's: a parameter \<open>dumps\<close>. The file's text so far is
  the accumulator.
\<close>

fun write_jsonl :: "(json_object \<Rightarrow> string) \<Rightarrow> example list \<Rightarrow> string \<Rightarrow> string" where
  "write_jsonl dumps [] f = f"
| "write_jsonl dumps (ex # selected) f =
     write_jsonl dumps selected ((f @ dumps (out_record ex)) @ [newline])"

definition main ::
  "(int \<Rightarrow> 'g) \<Rightarrow> 'g shuffler \<Rightarrow> (json_object \<Rightarrow> string) \<Rightarrow>
   example list \<Rightarrow> int \<Rightarrow> int \<Rightarrow> string" where
  "main seed_rng shuffle dumps dataset_train max_per_label seed =
     write_jsonl dumps
       (select_examples seed_rng shuffle dataset_train max_per_label seed) []"

text \<open>The lines of a text file: the pieces that end at a newline, and an unfinished rest.\<close>

fun text_lines :: "string \<Rightarrow> string \<Rightarrow> string list" where
  "text_lines cur [] = (if cur = [] then [] else [cur])"
| "text_lines cur (c # cs) =
     (if c = newline then cur # text_lines [] cs else text_lines (cur @ [c]) cs)"

subsection \<open>The sampler over an arbitrary random source\<close>

text \<open>
  To state that the sampler is reproducible, \<open>random.shuffle\<close> is taken as a relation:
  \<open>R g xs (ys, g')\<close> says that a call in generator state \<open>g\<close> on the list \<open>xs\<close> may
  leave the list \<open>ys\<close> and the state \<open>g'\<close>. A seeded pseudo-random generator is one
  whose relation is single-valued. A run of the sampler threads the state through the
  three per-label shuffles in the order of \<open>by_label.items()\<close> and then through the
  shuffle of the whole selection, as lines 106 to 113 do.
\<close>

type_synonym 'g shuffle_rel = "'g \<Rightarrow> example list \<Rightarrow> example list \<times> 'g \<Rightarrow> bool"


inductive sample_per_label_run ::
  "'g shuffle_rel \<Rightarrow> int \<Rightarrow> groups \<Rightarrow> example list \<Rightarrow> 'g \<Rightarrow> example list \<times> 'g \<Rightarrow> bool"
  for R :: "'g shuffle_rel" and max_per_label :: int where
  run_done: "sample_per_label_run R max_per_label [] selected g (selected, g)"
| run_group:
    "R g exs (exs', g') \<Longrightarrow>
     sample_per_label_run R max_per_label by_label
       (selected @ slice_to exs' max_per_label) g' r \<Longrightarrow>
     sample_per_label_run R max_per_label ((lab, exs) # by_label) selected g r"

inductive sampler_run ::
  "'g shuffle_rel \<Rightarrow> int \<Rightarrow> groups \<Rightarrow> 'g \<Rightarrow> example list \<Rightarrow> bool"
  for R :: "'g shuffle_rel" and max_per_label :: int where
  run_sampler:
    "sample_per_label_run R max_per_label by_label [] g (selected, g') \<Longrightarrow>
     R g' selected (out, g'') \<Longrightarrow>
     sampler_run R max_per_label by_label g out"


subsection \<open>A generator and an encoder to run the pipeline with\<close>

text \<open>
  The theorems below hold for every shuffle that permutes and every encoder that writes no
  raw newline. To evaluate the pipeline on concrete records the two parameters are
  instantiated: the generator state is a counter and the shuffle rotates by it; the
  encoder writes a JSON object the way \<open>json.dumps\<close> does with its default settings
  (separators \<open>", "\<close> and \<open>": "\<close>, every character outside the printable ASCII range
  escaped).
\<close>

definition counter_seed :: "int \<Rightarrow> nat" where
  "counter_seed seed = nat \<bar>seed\<bar>"

definition rotate_shuffle :: "nat shuffler" where
  "rotate_shuffle g xs = (rotate g xs, Suc g)"

definition hex_digit :: "nat \<Rightarrow> char" where
  "hex_digit n = ''0123456789abcdef'' ! (n mod 16)"

definition escape_char :: "char \<Rightarrow> string" where
  "escape_char c =
     (let n = (of_char c :: nat) in
        if n = 34 then [CHR 0x5C, CHR 0x22]
        else if n = 92 then [CHR 0x5C, CHR 0x5C]
        else if n = 10 then [CHR 0x5C, CHR ''n'']
        else if n = 13 then [CHR 0x5C, CHR ''r'']
        else if n = 9 then [CHR 0x5C, CHR ''t'']
        else if n = 8 then [CHR 0x5C, CHR ''b'']
        else if n = 12 then [CHR 0x5C, CHR ''f'']
        else if n < 32 \<or> 126 < n
          then [CHR 0x5C, CHR ''u'', CHR ''0'', CHR ''0'', hex_digit (n div 16), hex_digit n]
        else [c])"

fun decimal :: "nat \<Rightarrow> string" where
  "decimal n = (if n < 10 then [hex_digit n] else decimal (n div 10) @ [hex_digit (n mod 10)])"

declare decimal.simps [simp del]

fun dumps_value :: "json \<Rightarrow> string" where
  "dumps_value (JString s) = [CHR 0x22] @ concat (map escape_char s) @ [CHR 0x22]"
| "dumps_value (JInt i) = (if i < 0 then CHR ''-'' # decimal (nat (- i)) else decimal (nat i))"

fun dumps_items :: "json_object \<Rightarrow> string" where
  "dumps_items [] = []"
| "dumps_items [(k, v)] = dumps_value (JString k) @ '': '' @ dumps_value v"
| "dumps_items ((k, v) # kvs) =
     dumps_value (JString k) @ '': '' @ dumps_value v @ '', '' @ dumps_items kvs"

definition json_dumps :: "json_object \<Rightarrow> string" where
  "json_dumps obj = ''{'' @ dumps_items obj @ ''}''"

subsection \<open>The three records of the end-to-end scenario\<close>

definition example_a :: example where
  "example_a =
     \<lparr>premise = ''a man runs'',
      hypothesis = ''a man is not running very quickly today outside'',
      label = 1\<rparr>"

definition example_b :: example where
  "example_b =
     \<lparr>premise = ''a dog sleeps'',
      hypothesis =
        ''a completely unrelated group of people are celebrating a festival downtown'',
      label = 0\<rparr>"

definition example_c :: example where
  "example_c =
     \<lparr>premise = ''a cat eats food'', hypothesis = ''a cat eats food'', label = 2\<rparr>"

section \<open>Properties\<close>

subsection \<open>Tokenizer\<close>

lemma re_sub_chars: "c \<in> set (re_sub s) \<Longrightarrow> is_alnum c \<or> c = CHR '' ''"
  by (induction s rule: re_sub.induct) (auto split: if_splits)

lemma str_split_tokens:
  "t \<in> set (str_split s) \<Longrightarrow> t \<noteq> [] \<and> set t \<subseteq> set s \<and> (\<forall>c\<in>set t. \<not> is_space c)"
proof (induction s rule: str_split.induct)
  case (1 s)
  show ?case
  proof (cases "dropWhile is_space s")
    case Nil
    with "1.prems" show ?thesis by (simp add: str_split.simps [of s])
  next
    case (Cons c cs)
    have c: "\<not> is_space c"
      using hd_dropWhile [of is_space s] Cons by simp
    have sub: "set (c # cs) \<subseteq> set s"
      using set_dropWhileD [of _ is_space s] Cons by auto
    from "1.prems" Cons
    consider "t = c # takeWhile (\<lambda>d. \<not> is_space d) cs"
      | "t \<in> set (str_split (dropWhile (\<lambda>d. \<not> is_space d) cs))"
      by (auto simp: str_split.simps [of s])
    then show ?thesis
    proof cases
      case 1
      then show ?thesis using c sub
        by (auto dest: set_takeWhileD)
    next
      case 2
      from "1.IH" [OF Cons 2] sub show ?thesis
        by (auto dest: set_dropWhileD)
    qed
  qed
qed

lemma is_space_blank: "is_space (CHR '' '')"
  by (simp add: is_space_def)

lemma is_alnum_iff: "is_alnum c \<longleftrightarrow> c \<in> set ''abcdefghijklmnopqrstuvwxyz0123456789''"
  by (cases c) (simp add: is_alnum_def)

lemma simple_tokenize_token:
  assumes "t \<in> set (simple_tokenize text)"
  shows "t \<noteq> []" and "\<forall>c\<in>set t. is_alnum c"
proof -
  from assms have t: "t \<in> set (str_split (re_sub (str_lower text)))"
    by (simp add: simple_tokenize_def)
  from str_split_tokens [OF t] show "t \<noteq> []" by simp
  show "\<forall>c\<in>set t. is_alnum c"
  proof
    fix c assume "c \<in> set t"
    with str_split_tokens [OF t] have "c \<in> set (re_sub (str_lower text))" "\<not> is_space c"
      by auto
    with re_sub_chars [of c] is_space_blank show "is_alnum c" by auto
  qed
qed

lemma simple_tokenize_Nil: "simple_tokenize [] = []"
  by (simp add: simple_tokenize_def str_lower_def str_split.simps [of "[]"])

lemma not_alnum_apostrophe: "\<not> is_alnum (CHR 0x27)"
  by (simp add: is_alnum_def)

lemma token_no_apostrophe: "t \<in> set (simple_tokenize text) \<Longrightarrow> CHR 0x27 \<notin> set t"
  using simple_tokenize_token(2) not_alnum_apostrophe by blast

text \<open>
  C5: every token of \<open>simple_tokenize\<close> is a non-empty string over \<open>[a-z0-9]\<close> (so it
  holds no whitespace, no punctuation and no upper-case letter), and the empty text
  has no tokens.
\<close>

theorem simple_tokenize_tokens_alnum:
  "(\<forall>t\<in>set (simple_tokenize text).
      t \<noteq> [] \<and> set t \<subseteq> set ''abcdefghijklmnopqrstuvwxyz0123456789''
      \<and> (\<forall>c\<in>set t. \<not> is_space c \<and> lower_char c = c))
   \<and> simple_tokenize [] = []"
proof -
  have low: "lower_char c = c \<and> \<not> is_space c" if "is_alnum c" for c
    using that by (auto simp: is_alnum_def lower_char_def is_space_def Let_def)
  have "t \<noteq> [] \<and> set t \<subseteq> set ''abcdefghijklmnopqrstuvwxyz0123456789''
      \<and> (\<forall>c\<in>set t. \<not> is_space c \<and> lower_char c = c)"
    if t: "t \<in> set (simple_tokenize text)" for t
  proof -
    have al: "\<forall>c\<in>set t. is_alnum c"
      by (rule simple_tokenize_token(2) [OF t])
    then have "set t \<subseteq> set ''abcdefghijklmnopqrstuvwxyz0123456789''"
      unfolding is_alnum_iff by blast
    with al low simple_tokenize_token(1) [OF t] show ?thesis by blast
  qed
  with simple_tokenize_Nil show ?thesis by blast
qed

theorem simple_tokenize_tokens_alnum_witness:
  "simple_tokenize ''It's 9 AM - GO!'' = [''it'', ''s'', ''9'', ''am'', ''go'']
   \<and> list_all (\<lambda>t. t \<noteq> [] \<and> set t \<subseteq> set ''abcdefghijklmnopqrstuvwxyz0123456789'')
        (simple_tokenize ''It's 9 AM - GO!'')"
proof -
  have eq: "simple_tokenize ''It's 9 AM - GO!'' = [''it'', ''s'', ''9'', ''am'', ''go'']"
    by code_simp
  have "list_all (\<lambda>t. t \<noteq> [] \<and> set t \<subseteq> set ''abcdefghijklmnopqrstuvwxyz0123456789'')
        (simple_tokenize ''It's 9 AM - GO!'')"
    unfolding list_all_iff
    using simple_tokenize_tokens_alnum [of "''It's 9 AM - GO!''"] by blast
  with eq show ?thesis by (rule conjI)
qed

subsection \<open>Negation detector\<close>

text \<open>
  C3: no token equals \<open>n't\<close>, \<open>can't\<close> or \<open>don't\<close>, and the detector over the full
  vocabulary is the same function as the detector over the vocabulary without the three
  entries that bear an apostrophe.
\<close>

theorem has_negation_apostrophe_entries_dead:
  "(\<forall>t\<in>set (simple_tokenize text). t \<noteq> ''n't'' \<and> t \<noteq> ''can't'' \<and> t \<noteq> ''don't'')
   \<and> has_negation = has_negation_no_apostrophe"
proof
  show tok: "\<forall>t\<in>set (simple_tokenize s). t \<noteq> ''n't'' \<and> t \<noteq> ''can't'' \<and> t \<noteq> ''don't''"
    for s
    using token_no_apostrophe [of _ s] by fastforce
  show "has_negation = has_negation_no_apostrophe"
  proof
    fix s
    show "has_negation s = has_negation_no_apostrophe s"
      using tok [of s]
      by (auto simp: has_negation_def has_negation_no_apostrophe_def
          NEGATION_WORDS_no_apostrophe_def list_ex_iff)
  qed
qed

theorem has_negation_apostrophe_entries_dead_witness:
  "simple_tokenize ''I can't, don't!'' = [''i'', ''can'', ''t'', ''don'', ''t'']
   \<and> \<not> has_negation ''I can't, don't!''
   \<and> \<not> has_negation_no_apostrophe ''I can't, don't!''"
proof -
  have eq: "simple_tokenize ''I can't, don't!'' = [''i'', ''can'', ''t'', ''don'', ''t'']"
    by code_simp
  have "\<not> has_negation ''I can't, don't!''"
    unfolding has_negation_def eq by (simp add: NEGATION_WORDS_def)
  then show ?thesis
    using has_negation_apostrophe_entries_dead [of "''I can't, don't!''"] eq by simp
qed

subsection \<open>Lexical overlap\<close>

lemma lexical_overlap_nonempty:
  assumes "set (simple_tokenize prem) \<noteq> {}" and "set (simple_tokenize hyp) \<noteq> {}"
  shows "lexical_overlap prem hyp =
     real (card (set (simple_tokenize prem) \<inter> set (simple_tokenize hyp)))
     / real (card (set (simple_tokenize prem) \<union> set (simple_tokenize hyp)))"
  using assms by (simp add: lexical_overlap_def Let_def)

lemma lexical_overlap_empty:
  assumes "set (simple_tokenize prem) = {} \<or> set (simple_tokenize hyp) = {}"
  shows "lexical_overlap prem hyp = 0"
  using assms by (auto simp: lexical_overlap_def Let_def)

lemma jaccard_bounds:
  fixes A B :: "'a set"
  assumes "finite A" and "finite B"
  shows "0 \<le> real (card (A \<inter> B)) / real (card (A \<union> B))"
    and "real (card (A \<inter> B)) / real (card (A \<union> B)) \<le> 1"
proof -
  show "0 \<le> real (card (A \<inter> B)) / real (card (A \<union> B))" by simp
  have "card (A \<inter> B) \<le> card (A \<union> B)"
    using assms by (intro card_mono) auto
  then show "real (card (A \<inter> B)) / real (card (A \<union> B)) \<le> 1"
    by (cases "card (A \<union> B) = 0") (simp_all add: divide_le_eq_1)
qed

lemma lexical_overlap_bounds: "0 \<le> lexical_overlap prem hyp \<and> lexical_overlap prem hyp \<le> 1"
proof (cases "set (simple_tokenize prem) = {} \<or> set (simple_tokenize hyp) = {}")
  case True
  then show ?thesis by (simp add: lexical_overlap_empty)
next
  case False
  then show ?thesis
    using jaccard_bounds [of "set (simple_tokenize prem)" "set (simple_tokenize hyp)"]
    by (simp add: lexical_overlap_nonempty)
qed

lemma lexical_overlap_sym: "lexical_overlap prem hyp = lexical_overlap hyp prem"
  by (simp add: lexical_overlap_def Let_def Int_commute Un_commute disj_commute)

text \<open>
  C4: with \<open>A\<close> and \<open>B\<close> the token sets of the two texts, \<open>lexical_overlap\<close> returns
  \<open>|A \<inter> B| / |A \<union> B|\<close> when both are non-empty, where the divisor is positive, and
  \<open>0\<close> when either is empty; the result lies in \<open>[0, 1]\<close>, and swapping the arguments
  does not change it.
\<close>

theorem lexical_overlap_jaccard:
  "(set (simple_tokenize prem) \<noteq> {} \<and> set (simple_tokenize hyp) \<noteq> {} \<longrightarrow>
      0 < card (set (simple_tokenize prem) \<union> set (simple_tokenize hyp))
      \<and> lexical_overlap prem hyp =
          real (card (set (simple_tokenize prem) \<inter> set (simple_tokenize hyp)))
          / real (card (set (simple_tokenize prem) \<union> set (simple_tokenize hyp))))
   \<and> (set (simple_tokenize prem) = {} \<or> set (simple_tokenize hyp) = {} \<longrightarrow>
      lexical_overlap prem hyp = 0)
   \<and> 0 \<le> lexical_overlap prem hyp \<and> lexical_overlap prem hyp \<le> 1
   \<and> lexical_overlap prem hyp = lexical_overlap hyp prem"
proof -
  have "0 < card (set (simple_tokenize prem) \<union> set (simple_tokenize hyp))"
    if "set (simple_tokenize prem) \<noteq> {}"
    using that by (simp add: card_gt_0_iff)
  then show ?thesis
    using lexical_overlap_nonempty [of prem hyp] lexical_overlap_empty [of prem hyp]
      lexical_overlap_bounds [of prem hyp] lexical_overlap_sym [of prem hyp]
    by blast
qed

theorem lexical_overlap_jaccard_witness:
  "lexical_overlap ''A dog sleeps.'' ''The dog barks!'' = 1 / 5
   \<and> lexical_overlap ''The dog barks!'' ''A dog sleeps.'' = 1 / 5
   \<and> lexical_overlap ''?!'' ''The dog barks!'' = 0"
proof -
  have p: "simple_tokenize ''A dog sleeps.'' = [''a'', ''dog'', ''sleeps'']"
    by code_simp
  have h: "simple_tokenize ''The dog barks!'' = [''the'', ''dog'', ''barks'']"
    by code_simp
  have e: "simple_tokenize ''?!'' = []"
    by code_simp
  have i: "set [''a'', ''dog'', ''sleeps''] \<inter> set [''the'', ''dog'', ''barks''] = {''dog''}"
    by auto
  have u: "set [''a'', ''dog'', ''sleeps''] \<union> set [''the'', ''dog'', ''barks'']
      = {''a'', ''dog'', ''sleeps'', ''the'', ''barks''}"
    by auto
  have c: "card {''a'', ''dog'', ''sleeps'', ''the'', ''barks''} = 5"
    by simp
  show ?thesis
    using lexical_overlap_jaccard [of "''A dog sleeps.''" "''The dog barks!''"]
      lexical_overlap_jaccard [of "''?!''" "''The dog barks!''"]
    unfolding p h e i u c by simp
qed

subsection \<open>Heuristic evaluator\<close>

text \<open>The three heuristics on the records of the scenario, by evaluation.\<close>

lemma example_a_tokens:
  "simple_tokenize (hypothesis example_a) =
     [''a'', ''man'', ''is'', ''not'', ''running'', ''very'', ''quickly'', ''today'', ''outside'']"
  by code_simp

lemma example_a_negation: "has_negation (hypothesis example_a)"
  unfolding has_negation_def example_a_tokens by (simp add: NEGATION_WORDS_def)

lemma example_b_tokens:
  "simple_tokenize (hypothesis example_b) =
     [''a'', ''completely'', ''unrelated'', ''group'', ''of'', ''people'', ''are'',
      ''celebrating'', ''a'', ''festival'', ''downtown'']"
  by code_simp

lemma example_b_negation: "\<not> has_negation (hypothesis example_b)"
  unfolding has_negation_def example_b_tokens by (simp add: NEGATION_WORDS_def)

lemma example_b_length: "length (simple_tokenize (hypothesis example_b)) = 11"
  unfolding example_b_tokens by simp

lemma example_b_overlap: "lexical_overlap (premise example_b) (hypothesis example_b) = 1 / 12"
  by code_simp

lemma example_c_tokens:
  "simple_tokenize (hypothesis example_c) = [''a'', ''cat'', ''eats'', ''food'']"
  by code_simp

lemma example_c_negation: "\<not> has_negation (hypothesis example_c)"
  unfolding has_negation_def example_c_tokens by (simp add: NEGATION_WORDS_def)

lemma example_c_length: "length (simple_tokenize (hypothesis example_c)) = 4"
  unfolding example_c_tokens by simp

lemma example_c_overlap: "lexical_overlap (premise example_c) (hypothesis example_c) = 1"
  by code_simp

text \<open>
  C1: an example is accepted exactly when its hypothesis has no negation token, has more
  than ten tokens, and overlaps the premise by less than 0.2.
\<close>

theorem is_hard_example_iff:
  "is_hard_example ex \<longleftrightarrow>
     \<not> has_negation (hypothesis ex)
     \<and> 10 < length (simple_tokenize (hypothesis ex))
     \<and> lexical_overlap (premise ex) (hypothesis ex) < 0.2"
  by (auto simp: is_hard_example_def Let_def)

theorem is_hard_example_iff_witness:
  "is_hard_example example_b \<and> \<not> is_hard_example example_a \<and> \<not> is_hard_example example_c"
  using is_hard_example_iff [of example_a] is_hard_example_iff [of example_b]
    is_hard_example_iff [of example_c]
  by (simp add: example_a_negation example_b_negation example_b_length example_b_overlap
      example_c_length)

text \<open>
  C10: the decision reads the premise and the hypothesis only; two examples that agree on
  both get the same decision, whatever their labels.
\<close>

theorem is_hard_example_label_independent:
  "premise e1 = premise e2 \<Longrightarrow> hypothesis e1 = hypothesis e2 \<Longrightarrow>
     is_hard_example e1 = is_hard_example e2"
  by (simp add: is_hard_example_def)

theorem is_hard_example_label_independent_witness:
  "is_hard_example (example_b\<lparr>label := 2\<rparr>) = is_hard_example example_b
   \<and> is_hard_example (example_a\<lparr>label := - 1\<rparr>) = is_hard_example example_a"
  using is_hard_example_label_independent [of "example_b\<lparr>label := 2\<rparr>" example_b]
    is_hard_example_label_independent [of "example_a\<lparr>label := - 1\<rparr>" example_a]
  by simp

subsection \<open>Label groups\<close>

lemma fst_append_to: "map fst (append_to lab ex G) = map fst G"
  by (induction G) (auto simp: append_to_def)

lemma set_append_to:
  "(k, exs) \<in> set (append_to lab ex G) \<Longrightarrow>
     (k, exs) \<in> set G \<or> (k = lab \<and> (\<exists>old. exs = old @ [ex] \<and> (k, old) \<in> set G))"
  by (auto simp: append_to_def split: if_splits)

lemma collect_hard_keys: "map fst (collect_hard train G) = map fst G"
  by (induction train arbitrary: G) (simp_all add: Let_def fst_append_to)

lemma collect_hard_members:
  assumes "(k, exs) \<in> set (collect_hard train G)" and "ex \<in> set exs"
  shows "(\<exists>old. (k, old) \<in> set G \<and> ex \<in> set old)
     \<or> (ex \<in> set train \<and> is_hard_example ex \<and> label ex = k)"
  using assms
proof (induction train arbitrary: G)
  case Nil
  then show ?case by auto
next
  case (Cons e train)
  show ?case
  proof (cases "is_hard_example e \<and> label e \<in> fst ` set G")
    case False
    then have "collect_hard (e # train) G = collect_hard train G"
      by (auto simp: Let_def)
    with Cons.IH [of G] Cons.prems show ?thesis by auto
  next
    case True
    then have "collect_hard (e # train) G = collect_hard train (append_to (label e) e G)"
      by (simp add: Let_def)
    with Cons.IH [of "append_to (label e) e G"] Cons.prems
    consider old where "(k, old) \<in> set (append_to (label e) e G)" "ex \<in> set old"
      | "ex \<in> set train" "is_hard_example ex" "label ex = k"
      by auto
    then show ?thesis
    proof cases
      case 1
      from set_append_to [OF 1(1)] 1(2) True show ?thesis by auto
    next
      case 2
      then show ?thesis by simp
    qed
  qed
qed

lemma hard_by_label_keys: "map fst (hard_by_label dataset) = [0, 1, 2]"
  by (simp add: hard_by_label_def collect_hard_keys by_label_init_def)

lemma hard_by_label_members:
  assumes "(k, exs) \<in> set (hard_by_label dataset)" and "ex \<in> set exs"
  shows "label ex = k" and "k \<in> {0, 1, 2}" and "label ex \<noteq> - 1"
    and "ex \<in> set dataset" and "is_hard_example ex"
proof -
  from collect_hard_members [OF assms [unfolded hard_by_label_def Let_def]]
  have *: "ex \<in> set (filter (\<lambda>ex. label ex \<noteq> - 1) dataset) \<and> is_hard_example ex \<and> label ex = k"
    by (auto simp: by_label_init_def)
  then show "label ex = k" "label ex \<noteq> - 1" "ex \<in> set dataset" "is_hard_example ex"
    by auto
  have "k \<in> set (map fst (hard_by_label dataset))"
    using assms(1) by force
  then show "k \<in> {0, 1, 2}"
    by (simp add: hard_by_label_keys)
qed

subsection \<open>Sampler\<close>

lemma permuting_set: "permuting shuffle \<Longrightarrow> set (fst (shuffle g xs)) = set xs"
  unfolding permuting_def by (metis set_mset_mset)

lemma permuting_count:
  "permuting shuffle \<Longrightarrow> count_label k (fst (shuffle g xs)) = count_label k xs"
  unfolding permuting_def count_label_def
  by (metis mset_filter size_mset)

lemma permuting_single: "permuting shuffle \<Longrightarrow> fst (shuffle g [x]) = [x]"
  unfolding permuting_def by (metis mset_single_iff_right mset.simps(1) mset.simps(2) add_mset_eq_single mset_eq_setD mset_zero_iff single_is_union) 

lemma permuting_Nil: "permuting shuffle \<Longrightarrow> fst (shuffle g []) = []"
  unfolding permuting_def by (metis mset_zero_iff)

lemma set_slice_to: "set (slice_to xs m) \<subseteq> set xs"
  by (auto simp: slice_to_def dest: in_set_takeD)

lemma length_slice_to: "0 \<le> m \<Longrightarrow> length (slice_to xs m) \<le> nat m"
  by (simp add: slice_to_def)

lemma count_label_append [simp]: "count_label k (xs @ ys) = count_label k xs + count_label k ys"
  by (simp add: count_label_def)

lemma count_label_le_length: "count_label k xs \<le> length xs"
  by (simp add: count_label_def)

lemma count_label_other: "\<forall>ex\<in>set xs. label ex \<noteq> k \<Longrightarrow> count_label k xs = 0"
  by (simp add: count_label_def)

lemma sample_per_label_set:
  assumes "permuting shuffle"
  shows "set (fst (sample_per_label shuffle m G sel g)) \<subseteq> set sel \<union> (\<Union>(k, exs)\<in>set G. set exs)"
proof (induction G arbitrary: sel g)
  case Nil
  show ?case by simp
next
  case (Cons p G)
  obtain lab exs where p: "p = (lab, exs)" by (cases p)
  obtain exs' g' where sh: "shuffle g exs = (exs', g')" by (cases "shuffle g exs")
  have "set exs' = set exs"
    using permuting_set [OF assms, of g exs] sh by simp
  with set_slice_to [of exs' m] have "set (slice_to exs' m) \<subseteq> set exs" by simp
  with Cons.IH [of "sel @ slice_to exs' m" g'] show ?case
    by (auto simp: p sh)
qed

lemma sample_per_label_count:
  assumes "permuting shuffle" and "0 \<le> m"
  shows "keyed G \<Longrightarrow> distinct (map fst G) \<Longrightarrow>
     count_label k (fst (sample_per_label shuffle m G sel g))
       \<le> count_label k sel + (if k \<in> fst ` set G then nat m else 0)"
proof (induction G arbitrary: sel g)
  case Nil
  show ?case by simp
next
  case (Cons p G)
  obtain lab exs where p: "p = (lab, exs)" by (cases p)
  obtain exs' g' where sh: "shuffle g exs = (exs', g')" by (cases "shuffle g exs")
  have exs': "set exs' = set exs"
    using permuting_set [OF assms(1), of g exs] sh by simp
  have keyedG: "keyed G" and distG: "distinct (map fst G)" and lab: "lab \<notin> fst ` set G"
    and labs: "\<forall>ex\<in>set exs. label ex = lab"
    using Cons.prems by (auto simp: keyed_def p)
  have step: "fst (sample_per_label shuffle m (p # G) sel g)
      = fst (sample_per_label shuffle m G (sel @ slice_to exs' m) g')"
    by (simp add: p sh)
  note IH = Cons.IH [OF keyedG distG, of "sel @ slice_to exs' m" g']
  show ?case
  proof (cases "k = lab")
    case True
    have "count_label k (slice_to exs' m) \<le> nat m"
      using count_label_le_length [of k "slice_to exs' m"] length_slice_to [OF assms(2), of exs']
      by linarith
    with IH lab True show ?thesis
      unfolding step by (simp add: p)
  next
    case False
    have "\<forall>ex\<in>set (slice_to exs' m). label ex \<noteq> k"
      using set_slice_to [of exs' m] exs' labs False by auto
    then have "count_label k (slice_to exs' m) = 0"
      by (rule count_label_other)
    with IH False show ?thesis
      unfolding step by (simp add: p)
  qed
qed

lemma keyed_hard_by_label: "keyed (hard_by_label dataset)"
  unfolding keyed_def using hard_by_label_members(1) by blast

lemma select_examples_members:
  assumes "permuting shuffle" and "ex \<in> set (select_examples seed_rng shuffle dataset m seed)"
  shows "label ex \<in> {0, 1, 2}" and "label ex \<noteq> - 1" and "ex \<in> set dataset"
    and "is_hard_example ex"
proof -
  obtain selected g' where
    sp: "sample_per_label shuffle m (hard_by_label dataset) [] (seed_rng seed) = (selected, g')"
    by (cases "sample_per_label shuffle m (hard_by_label dataset) [] (seed_rng seed)")
  have "select_examples seed_rng shuffle dataset m seed = fst (shuffle g' selected)"
    by (simp add: select_examples_def sp)
  with assms(2) permuting_set [OF assms(1), of g' selected] have "ex \<in> set selected"
    by simp
  with sample_per_label_set [OF assms(1), of m "hard_by_label dataset" "[]" "seed_rng seed"]
  obtain k exs where mem: "(k, exs) \<in> set (hard_by_label dataset)" "ex \<in> set exs"
    by (auto simp: sp)
  from hard_by_label_members [OF mem]
  show "label ex \<in> {0, 1, 2}" "label ex \<noteq> - 1" "ex \<in> set dataset" "is_hard_example ex"
    by auto
qed

subsection \<open>The stand-in generator and encoder\<close>

lemma mset_rotate1: "mset (rotate1 xs) = mset xs"
  by (cases xs) simp_all

lemma mset_rotate: "mset (rotate n xs) = mset xs"
  by (induction n) (simp_all add: mset_rotate1)

lemma permuting_rotate_shuffle: "permuting rotate_shuffle"
  by (simp add: permuting_def rotate_shuffle_def mset_rotate)

lemma hex_digit_not_newline: "hex_digit n \<noteq> newline"
proof -
  have "hex_digit n \<in> set ''0123456789abcdef''"
    unfolding hex_digit_def by (rule nth_mem) simp
  then show ?thesis by (auto simp: newline_def)
qed

lemma escape_char_no_newline: "newline \<notin> set (escape_char c)"
  using hex_digit_not_newline [of "of_char c div 16"] hex_digit_not_newline [of "of_char c"]
  by (auto simp: escape_char_def Let_def newline_def)

lemma decimal_no_newline: "newline \<notin> set (decimal n)"
proof (induction n rule: decimal.induct)
  case (1 n)
  then show ?case
    using hex_digit_not_newline [of n] hex_digit_not_newline [of "n mod 10"]
    by (subst decimal.simps) auto
qed

lemma newline_not_punctuation:
  "newline \<noteq> CHR 0x22" "newline \<noteq> CHR '':''" "newline \<noteq> CHR '' ''"
  "newline \<noteq> CHR '',''" "newline \<noteq> CHR ''-''" "newline \<noteq> CHR ''{''"
  "newline \<noteq> CHR ''}''"
  by (simp_all add: newline_def)

lemma dumps_value_no_newline: "newline \<notin> set (dumps_value v)"
  by (cases v)
    (auto simp: escape_char_no_newline decimal_no_newline newline_not_punctuation)

lemma dumps_items_no_newline: "newline \<notin> set (dumps_items obj)"
  by (induction obj rule: dumps_items.induct)
    (simp_all add: dumps_value_no_newline newline_not_punctuation del: dumps_value.simps)

lemma json_dumps_no_newline: "newline \<notin> set (json_dumps obj)"
  by (simp add: json_dumps_def dumps_items_no_newline newline_not_punctuation)

subsection \<open>Writer\<close>

lemma write_jsonl_append:
  "write_jsonl dumps selected f
     = f @ concat (map (\<lambda>ex. dumps (out_record ex) @ [newline]) selected)"
  by (induction selected arbitrary: f) simp_all

lemma text_lines_line:
  "newline \<notin> set l \<Longrightarrow> text_lines cur (l @ newline # rest) = (cur @ l) # text_lines [] rest"
  by (induction l arbitrary: cur) auto

lemma text_lines_concat:
  "\<forall>l\<in>set ls. newline \<notin> set l \<Longrightarrow>
     text_lines [] (concat (map (\<lambda>l. l @ [newline]) ls)) = ls"
  by (induction ls) (simp_all add: text_lines_line)

subsection \<open>The scenario, step by step\<close>

lemma example_labels:
  "label example_a = 1" "label example_b = 0" "label example_c = 2"
  by (simp_all add: example_a_def example_b_def example_c_def)

lemma example_a_not_hard: "\<not> is_hard_example example_a"
  by (simp add: is_hard_example_def example_a_negation)

lemma example_b_hard: "is_hard_example example_b"
  by (simp add: is_hard_example_def Let_def example_b_negation example_b_length
      example_b_overlap)

lemma example_c_not_hard: "\<not> is_hard_example example_c"
  by (simp add: is_hard_example_def Let_def example_c_length)

lemma scenario_groups:
  "hard_by_label [example_a, example_b, example_c] = [(0, [example_b]), (1, []), (2, [])]"
  by (simp add: hard_by_label_def example_labels example_a_not_hard example_b_hard
      example_c_not_hard by_label_init_def append_to_def)

lemma slice_to_short: "int (length xs) \<le> m \<Longrightarrow> slice_to xs m = xs"
  by (simp add: slice_to_def)

lemma scenario_selection:
  assumes "permuting shuffle"
  shows "select_examples seed_rng shuffle [example_a, example_b, example_c] 10 1 = [example_b]"
  by (simp add: select_examples_def scenario_groups case_prod_beta
      permuting_single [OF assms] permuting_Nil [OF assms] slice_to_short)

text \<open>
  C2: on the three records of the scenario, with \<open>max_per_label = 10\<close> and seed 1, the
  script writes exactly one line, the record of example (b) with label 0. Example (a) is
  rejected for its token \<open>not\<close>, example (c) for an overlap of 1 and 4 tokens, example
  (b) is accepted with no negation, 11 tokens and overlap 1/12.
\<close>

theorem scenario_one_line:
  assumes "permuting shuffle"
  shows "(''not'' \<in> set (simple_tokenize (hypothesis example_a))
      \<and> ''not'' \<in> NEGATION_WORDS
      \<and> has_negation (hypothesis example_a) \<and> \<not> is_hard_example example_a)
    \<and> (lexical_overlap (premise example_c) (hypothesis example_c) = 1
      \<and> length (simple_tokenize (hypothesis example_c)) = 4
      \<and> \<not> is_hard_example example_c)
    \<and> (\<not> has_negation (hypothesis example_b)
      \<and> length (simple_tokenize (hypothesis example_b)) = 11
      \<and> lexical_overlap (premise example_b) (hypothesis example_b) = 1 / 12
      \<and> is_hard_example example_b)
    \<and> select_examples seed_rng shuffle [example_a, example_b, example_c] 10 1 = [example_b]
    \<and> main seed_rng shuffle dumps [example_a, example_b, example_c] 10 1
        = dumps (out_record example_b) @ [newline]
    \<and> out_record example_b =
        [(''premise'', JString ''a dog sleeps''),
         (''hypothesis'',
          JString ''a completely unrelated group of people are celebrating a festival downtown''),
         (''label'', JInt 0)]"
proof -
  have a: "''not'' \<in> set (simple_tokenize (hypothesis example_a)) \<and> ''not'' \<in> NEGATION_WORDS"
    unfolding example_a_tokens by (simp add: NEGATION_WORDS_def)
  have out: "main seed_rng shuffle dumps [example_a, example_b, example_c] 10 1
        = dumps (out_record example_b) @ [newline]"
    by (simp add: main_def scenario_selection [OF assms])
  have rec: "out_record example_b =
        [(''premise'', JString ''a dog sleeps''),
         (''hypothesis'',
          JString ''a completely unrelated group of people are celebrating a festival downtown''),
         (''label'', JInt 0)]"
    by (simp add: out_record_def example_b_def)
  show ?thesis
    using a out rec scenario_selection [OF assms, of seed_rng]
      example_a_negation example_a_not_hard example_c_overlap example_c_length
      example_c_not_hard example_b_negation example_b_length example_b_overlap example_b_hard
    by blast
qed

theorem scenario_one_line_witness:
  "main counter_seed rotate_shuffle json_dumps [example_a, example_b, example_c] 10 1
     = json_dumps (out_record example_b) @ [newline]
   \<and> select_examples counter_seed rotate_shuffle [example_a, example_b, example_c] 10 1
     = [example_b]"
  using scenario_one_line [OF permuting_rotate_shuffle, of counter_seed json_dumps]
  by blast

subsection \<open>Unlabeled records\<close>

lemma hard_by_label_filter:
  "hard_by_label (filter (\<lambda>ex. label ex \<noteq> - 1) dataset) = hard_by_label dataset"
  by (simp add: hard_by_label_def)

text \<open>
  C7: the three groups have the keys 0, 1, 2; every example stored in a group carries the
  group's key as its label, so never the label -1; the groups are those of the dataset
  with its unlabeled records removed; and no example of the written selection has the
  label -1, whether or not it passes the three heuristics.
\<close>

theorem unlabeled_never_kept:
  assumes "permuting shuffle"
  shows "map fst (hard_by_label dataset) = [0, 1, 2]
    \<and> (\<forall>(k, exs)\<in>set (hard_by_label dataset).
          k \<in> {0, 1, 2} \<and> (\<forall>ex\<in>set exs. label ex = k \<and> label ex \<noteq> - 1))
    \<and> hard_by_label (filter (\<lambda>ex. label ex \<noteq> - 1) dataset) = hard_by_label dataset
    \<and> (\<forall>ex\<in>set (select_examples seed_rng shuffle dataset max_per_label seed).
          label ex \<in> {0, 1, 2} \<and> label ex \<noteq> - 1)"
proof -
  have groups: "\<forall>(k, exs)\<in>set (hard_by_label dataset).
      k \<in> {0, 1, 2} \<and> (\<forall>ex\<in>set exs. label ex = k \<and> label ex \<noteq> - 1)"
  proof (clarify, intro conjI ballI)
    fix k exs
    assume mem: "(k, exs) \<in> set (hard_by_label dataset)"
    have "k \<in> set (map fst (hard_by_label dataset))"
      using mem by force
    then show "k \<in> {0, 1, 2}"
      by (simp add: hard_by_label_keys)
    fix ex
    assume "ex \<in> set exs"
    from hard_by_label_members(1,3) [OF mem this]
    show "label ex = k" and "label ex \<noteq> - 1" .
  qed
  have "\<forall>ex\<in>set (select_examples seed_rng shuffle dataset max_per_label seed).
      label ex \<in> {0, 1, 2} \<and> label ex \<noteq> - 1"
    using select_examples_members(1,2) [OF assms] by blast
  with groups hard_by_label_keys [of dataset] hard_by_label_filter [of dataset]
  show ?thesis by blast
qed

lemma unlabeled_b_hard: "is_hard_example (example_b\<lparr>label := - 1\<rparr>)"
  using example_b_hard by (simp add: is_hard_example_def)

lemma unlabeled_groups:
  "hard_by_label [example_b\<lparr>label := - 1\<rparr>, example_b] = [(0, [example_b]), (1, []), (2, [])]"
  by (simp add: hard_by_label_def example_labels example_b_hard by_label_init_def
      append_to_def)

theorem unlabeled_never_kept_witness:
  "is_hard_example (example_b\<lparr>label := - 1\<rparr>)
   \<and> hard_by_label [example_b\<lparr>label := - 1\<rparr>, example_b] = [(0, [example_b]), (1, []), (2, [])]
   \<and> list_all (\<lambda>ex. label ex \<noteq> - 1)
        (select_examples counter_seed rotate_shuffle [example_b\<lparr>label := - 1\<rparr>, example_b] 10 1)"
proof -
  have "list_all (\<lambda>ex. label ex \<noteq> - 1)
        (select_examples counter_seed rotate_shuffle [example_b\<lparr>label := - 1\<rparr>, example_b] 10 1)"
    unfolding list_all_iff
    using unlabeled_never_kept [OF permuting_rotate_shuffle,
        of "[example_b\<lparr>label := - 1\<rparr>, example_b]" counter_seed 10 1]
    by blast
  with unlabeled_b_hard unlabeled_groups show ?thesis by blast
qed

subsection \<open>The cap per label\<close>

text \<open>
  C6, as the claim states it, fails for a negative \<open>max_per_label\<close>: the slice
  \<open>exs[:-1]\<close> keeps all but the last example of a group, and one example is more than
  -1.
\<close>

lemma two_hard_groups:
  "hard_by_label [example_b, example_b\<lparr>premise := ''two dogs sleep''\<rparr>]
     = [(0, [example_b, example_b\<lparr>premise := ''two dogs sleep''\<rparr>]), (1, []), (2, [])]"
proof -
  have "is_hard_example (example_b\<lparr>premise := ''two dogs sleep''\<rparr>)"
    by code_simp
  then show ?thesis
    by (simp add: hard_by_label_def example_labels example_b_hard by_label_init_def
        append_to_def)
qed

theorem negative_cap_counterexample:
  "count_label 0
     (select_examples counter_seed rotate_shuffle
        [example_b, example_b\<lparr>premise := ''two dogs sleep''\<rparr>] (- 1) 1) = 1
   \<and> \<not> int (count_label 0
     (select_examples counter_seed rotate_shuffle
        [example_b, example_b\<lparr>premise := ''two dogs sleep''\<rparr>] (- 1) 1)) \<le> - 1"
proof -
  have "count_label 0
     (select_examples counter_seed rotate_shuffle
        [example_b, example_b\<lparr>premise := ''two dogs sleep''\<rparr>] (- 1) 1) = 1"
    by (simp add: select_examples_def two_hard_groups rotate_shuffle_def counter_seed_def
        slice_to_def count_label_def example_labels)
  then show ?thesis by simp
qed

text \<open>
  C6, amended: for every \<open>max_per_label \<ge> 0\<close> and every label, the selection holds at
  most \<open>max_per_label\<close> examples of that label.
\<close>

theorem per_label_cap:
  assumes "permuting shuffle" and "0 \<le> max_per_label"
  shows "int (count_label k (select_examples seed_rng shuffle dataset max_per_label seed))
     \<le> max_per_label"
proof -
  obtain selected g' where
    sp: "sample_per_label shuffle max_per_label (hard_by_label dataset) [] (seed_rng seed) = (selected, g')"
    by (cases "sample_per_label shuffle max_per_label (hard_by_label dataset) [] (seed_rng seed)")
  have "distinct (map fst (hard_by_label dataset))"
    by (simp add: hard_by_label_keys)
  from sample_per_label_count [OF assms keyed_hard_by_label this, of k "[]" "seed_rng seed"]
  have "count_label k selected \<le> nat max_per_label"
    by (simp add: sp count_label_def split: if_splits)
  moreover have "select_examples seed_rng shuffle dataset max_per_label seed = fst (shuffle g' selected)"
    by (simp add: select_examples_def sp)
  ultimately show ?thesis
    using permuting_count [OF assms(1), of k g' selected] assms(2) by simp
qed

theorem per_label_cap_witness:
  "count_label 0
     (select_examples counter_seed rotate_shuffle
        [example_b, example_b\<lparr>premise := ''two dogs sleep''\<rparr>] 1 1) = 1
   \<and> int (count_label 0
     (select_examples counter_seed rotate_shuffle
        [example_b, example_b\<lparr>premise := ''two dogs sleep''\<rparr>] 1 1)) \<le> 1"
proof -
  have "count_label 0
     (select_examples counter_seed rotate_shuffle
        [example_b, example_b\<lparr>premise := ''two dogs sleep''\<rparr>] 1 1) = 1"
    by (simp add: select_examples_def two_hard_groups rotate_shuffle_def counter_seed_def
        slice_to_def count_label_def example_labels)
  with per_label_cap [OF permuting_rotate_shuffle, of 1 0 counter_seed
      "[example_b, example_b\<lparr>premise := ''two dogs sleep''\<rparr>]" 1]
  show ?thesis by simp
qed

subsection \<open>The written file\<close>

text \<open>
  C8: the file is the concatenation, in order, of one piece per selected example: the
  encoding of a JSON object with exactly the keys \<open>premise\<close>, \<open>hypothesis\<close> and
  \<open>label\<close> (two strings and an integer), followed by a newline, and nothing else. Read
  back line by line, the file yields those encodings, one per example. The label written
  is the example's own, which for the selection of \<open>main\<close> lies in \<open>{0, 1, 2}\<close>.
\<close>

theorem jsonl_lines:
  assumes "\<forall>obj. newline \<notin> set (dumps obj)" and "permuting shuffle"
  shows "write_jsonl dumps selected []
        = concat (map (\<lambda>ex. dumps (out_record ex) @ [newline]) selected)
    \<and> text_lines [] (write_jsonl dumps selected []) = map (\<lambda>ex. dumps (out_record ex)) selected
    \<and> length (text_lines [] (write_jsonl dumps selected [])) = length selected
    \<and> (\<forall>ex\<in>set selected.
          map fst (out_record ex) = [''premise'', ''hypothesis'', ''label'']
          \<and> map snd (out_record ex)
              = [JString (premise ex), JString (hypothesis ex), JInt (label ex)])
    \<and> main seed_rng shuffle dumps dataset max_per_label seed
        = write_jsonl dumps (select_examples seed_rng shuffle dataset max_per_label seed) []
    \<and> (\<forall>ex\<in>set (select_examples seed_rng shuffle dataset max_per_label seed).
          label ex \<in> {0, 1, 2})"
proof -
  let ?enc = "\<lambda>ex. dumps (out_record ex)"
  have content: "write_jsonl dumps selected [] = concat (map (\<lambda>ex. ?enc ex @ [newline]) selected)"
    by (simp add: write_jsonl_append)
  have "concat (map (\<lambda>ex. ?enc ex @ [newline]) selected)
      = concat (map (\<lambda>l. l @ [newline]) (map ?enc selected))"
    by (simp add: comp_def)
  moreover have "\<forall>l\<in>set (map ?enc selected). newline \<notin> set l"
    using assms(1) by auto
  ultimately have lines: "text_lines [] (write_jsonl dumps selected []) = map ?enc selected"
    unfolding content by (simp only: text_lines_concat)
  have keys: "\<forall>ex\<in>set selected.
      map fst (out_record ex) = [''premise'', ''hypothesis'', ''label'']
      \<and> map snd (out_record ex) = [JString (premise ex), JString (hypothesis ex), JInt (label ex)]"
    by (simp add: out_record_def)
  have labels: "\<forall>ex\<in>set (select_examples seed_rng shuffle dataset max_per_label seed).
      label ex \<in> {0, 1, 2}"
    using select_examples_members(1) [OF assms(2)] by blast
  have "length (text_lines [] (write_jsonl dumps selected [])) = length selected"
    unfolding lines by simp
  with content lines keys labels show ?thesis
    unfolding main_def by blast
qed

theorem jsonl_lines_witness:
  "text_lines [] (write_jsonl json_dumps [example_b, example_c] [])
     = [json_dumps (out_record example_b), json_dumps (out_record example_c)]
   \<and> length (text_lines [] (write_jsonl json_dumps [example_b, example_c] [])) = 2"
  using jsonl_lines [of json_dumps rotate_shuffle "[example_b, example_c]"]
    json_dumps_no_newline permuting_rotate_shuffle
  by simp

subsection \<open>Reproducibility of the sampler\<close>






end
